theory Spec2Isabelle
  imports Complex_Main "HOL-Library.Log_Nat" "HOL-Library.Multiset" "HOL-Library.Sublist"
begin

section \<open>The OOP Learning API: data model\<close>



record QuizQuestion =
  QuizQuestion_id :: int
  QuizQuestion_question :: string
  QuizQuestion_options :: "string list"
  QuizQuestion_correct_answer :: int
  QuizQuestion_explanation :: string

record Quiz =
  Quiz_id :: int
  Quiz_lesson_id :: int
  Quiz_title :: string
  Quiz_questions :: "QuizQuestion list"

record QuizAnswer =
  QuizAnswer_question_id :: int
  QuizAnswer_answer :: int

record QuizSubmission =
  QuizSubmission_answers :: "QuizAnswer list"

text \<open>
  A Python \<^verbatim>\<open>float\<close> is an IEEE 754 binary64 number. A finite one is modelled by the
  rational number it denotes, so that comparisons are exact and every rounding the
  interpreter performs is an explicit call of \<open>fl\<close> below.
\<close>

type_synonym py_float = rat

record QuizResult =
  QuizResult_score :: int
  QuizResult_total :: int
  QuizResult_percentage :: py_float
  QuizResult_passed :: bool
  QuizResult_feedback :: "string list"

text \<open>\<^verbatim>\<open>raise HTTPException(status_code=..., detail=...)\<close> is a value of the result.\<close>

datatype HTTPException = HTTPException (status_code: int) (detail: string)

section \<open>Binary64 arithmetic\<close>

text \<open>
  \<open>round_half_even\<close> is rounding to the nearest integer, a tie going to the even
  neighbour: the rule of IEEE 754 round-to-nearest and of Python's \<^verbatim>\<open>round\<close>.
\<close>

definition round_half_even :: "rat \<Rightarrow> int" where
  "round_half_even x =
     (let f = \<lfloor>x\<rfloor>; d = x - of_int f
      in if d < 1 / 2 then f
         else if 1 / 2 < d then f + 1
         else if even f then f else f + 1)"

text \<open>
  \<open>ilog2 x\<close> is the binary exponent of a positive rational: the \<open>e\<close> with
  \<open>2 ^ e \<le> x < 2 ^ (e + 1)\<close>. It is found from the bit lengths of numerator and
  denominator, which fix it up to one.
\<close>

definition ilog2 :: "rat \<Rightarrow> int" where
  "ilog2 x =
     (let (a, b) = quotient_of x; k = bitlen a - bitlen b
      in if 2 powi k \<le> x then k else k - 1)"

text \<open>
  \<open>fl x\<close> is the binary64 number nearest to \<open>x\<close>: the significand has 53 bits, so a
  number with binary exponent \<open>e\<close> is rounded to a multiple of \<open>2 ^ (e - 52)\<close>, ties
  to even. The exponent is not bounded here; binary64 agrees with this for
  \<open>2 ^ -1022 \<le> \<bar>x\<bar> < 2 ^ 1024\<close>, which holds for every nonzero value of this program
  whose counts are lengths of Python lists (below \<open>2 ^ 63\<close>).
\<close>

definition fl :: "rat \<Rightarrow> py_float" where
  "fl x =
     (if x = 0 then 0
      else let u = 2 powi (ilog2 \<bar>x\<bar> - 52)
           in of_int (round_half_even (x / u)) * u)"

text \<open>
  \<^verbatim>\<open>a / b\<close> on two \<^verbatim>\<open>int\<close>s is the correctly rounded quotient. With \<^verbatim>\<open>b == 0\<close>
  Python raises \<^verbatim>\<open>ZeroDivisionError\<close>; the one division of this program is guarded
  by \<^verbatim>\<open>total > 0\<close>, and the model evaluates it under that guard only.
\<close>

definition py_truediv :: "int \<Rightarrow> int \<Rightarrow> py_float" where
  "py_truediv a b = fl (of_int a / of_int b)"

text \<open>\<^verbatim>\<open>x * y\<close> on floats (an \<^verbatim>\<open>int\<close> operand such as \<^verbatim>\<open>100\<close> converts exactly).\<close>

definition py_float_mul :: "py_float \<Rightarrow> py_float \<Rightarrow> py_float" where
  "py_float_mul x y = fl (x * y)"

text \<open>
  \<^verbatim>\<open>round(x, ndigits)\<close> on a float: CPython rounds the exact value of \<open>x\<close> to
  \<open>ndigits\<close> decimal places, ties to even, and returns the float nearest to that
  decimal.
\<close>

definition py_round :: "py_float \<Rightarrow> nat \<Rightarrow> py_float" where
  "py_round x ndigits =
     fl (of_int (round_half_even (x * 10 ^ ndigits)) / 10 ^ ndigits)"

section \<open>Strings\<close>

text \<open>\<^verbatim>\<open>str(n)\<close> of an \<^verbatim>\<open>int\<close>, as the f-strings of the feedback format it.\<close>

definition digit_char :: "nat \<Rightarrow> char" where
  "digit_char d = char_of (48 + d)"

fun str_nat :: "nat \<Rightarrow> string" where
  "str_nat n = (if n < 10 then [digit_char n] else str_nat (n div 10) @ [digit_char (n mod 10)])"

declare str_nat.simps [simp del]

definition str_int :: "int \<Rightarrow> string" where
  "str_int i = (if i < 0 then CHR ''-'' # str_nat (nat (- i)) else str_nat (nat i))"

text \<open>The two marks of the feedback lines, U+2713 and U+2717, in UTF-8.\<close>

definition check_mark :: string where
  "check_mark = [CHR 0xE2, CHR 0x9C, CHR 0x93]"

definition ballot_x :: string where
  "ballot_x = [CHR 0xE2, CHR 0x9C, CHR 0x97]"

section \<open>The quiz store\<close>

text \<open>\<^verbatim>\<open>quizzes_db\<close> as the module defines it.\<close>

definition quizzes_db :: "Quiz list" where
  "quizzes_db = [
     \<lparr>Quiz_id = 1,
      Quiz_lesson_id = 1,
      Quiz_title = ''Classes and Objects Quiz'',
      Quiz_questions = [
          \<lparr>QuizQuestion_id = 1,
           QuizQuestion_question = ''What is a class in OOP?'',
           QuizQuestion_options =
             [''An instance of an object'',
              ''A blueprint for creating objects'',
              ''A method of a program'',
              ''A type of variable''],
           QuizQuestion_correct_answer = 1,
           QuizQuestion_explanation =
             ''A class is a blueprint or template that defines the structure and behavior for objects.''\<rparr>,
          \<lparr>QuizQuestion_id = 2,
           QuizQuestion_question = ''What is an object?'',
           QuizQuestion_options =
             [''A collection of variables'',
              ''An instance of a class'',
              ''A function definition'',
              ''A data type''],
           QuizQuestion_correct_answer = 1,
           QuizQuestion_explanation =
             ''An object is a concrete instance created from a class. It has actual values for the attributes defined in the class.''\<rparr>,
          \<lparr>QuizQuestion_id = 3,
           QuizQuestion_question = ''What does __init__ do in a class?'',
           QuizQuestion_options =
             [''Initializes the program'',
              ''Deletes an object'',
              ''Constructs and initializes a new object'',
              ''Returns a value''],
           QuizQuestion_correct_answer = 2,
           QuizQuestion_explanation =
             (''__init__ is the constructor method that initializes a new object when it'' @ [CHR 0x27] @ ''s created.'')\<rparr>]\<rparr>,
     \<lparr>Quiz_id = 2,
      Quiz_lesson_id = 2,
      Quiz_title = ''Inheritance Quiz'',
      Quiz_questions = [
          \<lparr>QuizQuestion_id = 1,
           QuizQuestion_question = ''What is inheritance?'',
           QuizQuestion_options =
             [''Passing money to children'',
              ''A child class inheriting attributes and methods from a parent class'',
              ''Creating multiple objects'',
              ''Copying code from one file to another''],
           QuizQuestion_correct_answer = 1,
           QuizQuestion_explanation =
             ''Inheritance allows a class (child) to inherit attributes and methods from another class (parent).''\<rparr>,
          \<lparr>QuizQuestion_id = 2,
           QuizQuestion_question = ''What is the main benefit of inheritance?'',
           QuizQuestion_options =
             [''It makes code longer'',
              ''It helps organize imports'',
              ''Code reusability and logical structure'',
              ''It slows down execution''],
           QuizQuestion_correct_answer = 2,
           QuizQuestion_explanation =
             ''Inheritance promotes code reusability and creates a logical hierarchical structure.''\<rparr>]\<rparr>]"


section \<open>Grading a submission\<close>

text \<open>
  The \<^verbatim>\<open>for answer in submission.answers\<close> loop of \<^verbatim>\<open>submit_quiz\<close>, with its two
  accumulators. \<^verbatim>\<open>next((q for q in quiz.questions if q.id == answer.question_id), None)\<close>
  is \<^const>\<open>find\<close>; a model object is truthy, so \<^verbatim>\<open>if not question: continue\<close> is
  taken exactly for \<^verbatim>\<open>None\<close>.
\<close>

fun grade_answers ::
  "QuizQuestion list \<Rightarrow> QuizAnswer list \<Rightarrow> int \<times> string list \<Rightarrow> int \<times> string list" where
  "grade_answers questions [] (score, feedback) = (score, feedback)"
| "grade_answers questions (answer # rest) (score, feedback) =
     (case find (\<lambda>q. QuizQuestion_id q = QuizAnswer_question_id answer) questions of
        None \<Rightarrow> grade_answers questions rest (score, feedback)
      | Some question \<Rightarrow>
          if QuizAnswer_answer answer = QuizQuestion_correct_answer question
          then grade_answers questions rest
                 (score + 1,
                  feedback @
                    [''Q'' @ str_int (QuizAnswer_question_id answer) @ '': '' @ check_mark @
                     '' Correct! '' @ QuizQuestion_explanation question])
          else grade_answers questions rest
                 (score,
                  feedback @
                    [''Q'' @ str_int (QuizAnswer_question_id answer) @ '': '' @ ballot_x @
                     '' Incorrect. '' @ QuizQuestion_explanation question]))"

text \<open>
  \<^verbatim>\<open>submit_quiz\<close>. The module-level list \<^verbatim>\<open>quizzes_db\<close> it reads is the first
  argument \<open>db\<close>; \<^verbatim>\<open>if not quiz\<close> is taken exactly when the lookup gives \<^verbatim>\<open>None\<close>.
  \<^verbatim>\<open>passed\<close> is computed from \<^verbatim>\<open>percentage\<close> before the result is
  built with \<^verbatim>\<open>round(percentage, 2)\<close>. With \<^verbatim>\<open>total == 0\<close> the percentage is the
  \<^verbatim>\<open>int\<close> 0, which \<^verbatim>\<open>round\<close> returns as it is and the \<^verbatim>\<open>float\<close> field stores as
  0.0; \<open>py_round 0 2\<close> is 0 as well.
\<close>

definition submit_quiz :: "Quiz list \<Rightarrow> int \<Rightarrow> QuizSubmission \<Rightarrow> HTTPException + QuizResult" where
  "submit_quiz db quiz_id submission =
     (case find (\<lambda>q. Quiz_id q = quiz_id) db of
        None \<Rightarrow> Inl (HTTPException 404 ''Quiz not found'')
      | Some quiz \<Rightarrow>
          (let (score, feedback) =
                 grade_answers (Quiz_questions quiz) (QuizSubmission_answers submission) (0, []);
               total = int (length (Quiz_questions quiz));
               percentage = (if total > 0 then py_float_mul (py_truediv score total) 100 else 0);
               passed = (percentage \<ge> 70)
           in Inr \<lparr>QuizResult_score = score,
                    QuizResult_total = total,
                    QuizResult_percentage = py_round percentage 2,
                    QuizResult_passed = passed,
                    QuizResult_feedback = feedback\<rparr>))"

section \<open>Keyword search over the lessons\<close>


















section \<open>Further stores\<close>

text \<open>
  The store is data, and the grader reads it only through \<^verbatim>\<open>quiz.questions\<close>; two
  more stores of well-formed \<^verbatim>\<open>Quiz\<close> values are used below. \<open>sample_question i\<close> is
  a two-option question with identifier \<open>i\<close> whose correct option is 0, and
  \<open>correct_answer_to q\<close> is the \<^verbatim>\<open>QuizAnswer\<close> that picks the correct option of \<open>q\<close>.
\<close>

definition sample_question :: "int \<Rightarrow> QuizQuestion" where
  "sample_question i =
     \<lparr>QuizQuestion_id = i,
      QuizQuestion_question = ''Question '' @ str_int i,
      QuizQuestion_options = [''yes'', ''no''],
      QuizQuestion_correct_answer = 0,
      QuizQuestion_explanation = ''The first option.''\<rparr>"

definition correct_answer_to :: "QuizQuestion \<Rightarrow> QuizAnswer" where
  "correct_answer_to q =
     \<lparr>QuizAnswer_question_id = QuizQuestion_id q,
      QuizAnswer_answer = QuizQuestion_correct_answer q\<rparr>"

definition sample_quiz :: "int \<Rightarrow> Quiz" where
  "sample_quiz n =
     \<lparr>Quiz_id = 1, Quiz_lesson_id = 1, Quiz_title = ''Sample'',
      Quiz_questions = map sample_question [1..n]\<rparr>"

definition empty_quiz :: Quiz where
  "empty_quiz =
     \<lparr>Quiz_id = 1, Quiz_lesson_id = 1, Quiz_title = ''Empty'', Quiz_questions = []\<rparr>"

section \<open>Properties\<close>

subsection \<open>Rounding\<close>

text \<open>
  Rounding to the nearest integer and to the nearest binary64 number are monotone, and
  so is \<^verbatim>\<open>round(x, n)\<close> on nonnegative floats.
\<close>

lemma fl_0: "fl 0 = 0"
  by (simp add: fl_def)

lemma round_half_even_of_int: "round_half_even (of_int n) = n"
  by (simp add: round_half_even_def)

lemma round_half_even_near:
  "of_int (round_half_even x) - 1 / 2 \<le> x \<and> x \<le> of_int (round_half_even x) + 1 / 2"
  unfolding round_half_even_def Let_def
  by (auto simp: not_less) linarith+

lemma round_half_even_mono:
  assumes "x \<le> y"
  shows "round_half_even x \<le> round_half_even y"
proof (rule ccontr)
  assume "\<not> round_half_even x \<le> round_half_even y"
  then have gt: "round_half_even y + 1 \<le> round_half_even x" by simp
  then have gt': "(of_int (round_half_even y) :: rat) + 1 \<le> of_int (round_half_even x)"
    by (metis of_int_1 of_int_add of_int_le_iff)
  have nx: "of_int (round_half_even x) - 1 / 2 \<le> x" using round_half_even_near [of x] by simp
  have ny: "y \<le> of_int (round_half_even y) + 1 / 2" using round_half_even_near [of y] by simp
  from gt' nx ny assms have "x = y" by linarith
  with gt show False by simp
qed

lemma round_half_even_nonneg: "0 \<le> x \<Longrightarrow> 0 \<le> round_half_even x"
  using round_half_even_mono [of 0 x] round_half_even_of_int [of 0] by simp

lemma pow2_add: "(2 :: rat) powi (m + n) = 2 powi m * 2 powi n"
  by (simp add: power_int_add)

lemma pow2_diff: "(2 :: rat) powi (m - n) = 2 powi m / 2 powi n"
  by (simp add: power_int_diff)

lemma pow2_pos: "(0 :: rat) < 2 powi n"
  by (simp add: zero_less_power_int)

lemma pow2_mono: "m \<le> n \<Longrightarrow> (2 :: rat) powi m \<le> 2 powi n"
  by (simp add: power_int_increasing)

lemma pow2_less_imp: "(2 :: rat) powi m < 2 powi n \<Longrightarrow> m < n"
  using pow2_mono [of n m] by (cases "m < n") simp_all

lemma quotient_of_pos:
  assumes "0 < x" and "quotient_of x = (a, b)"
  shows "0 < a \<and> 0 < b \<and> x = of_int a / of_int b"
proof -
  have b: "0 < b" using assms(2) quotient_of_denom_pos by blast
  have x: "x = of_int a / of_int b" using assms(2) by (rule quotient_of_div)
  have "0 < a" using assms(1) b unfolding x by (simp add: zero_less_divide_iff)
  with b x show ?thesis by simp
qed

lemma ilog2_bounds:
  assumes "0 < x"
  shows "2 powi (ilog2 x) \<le> x \<and> x < 2 powi (ilog2 x + 1)"
proof -
  obtain a b where q: "quotient_of x = (a, b)" by (cases "quotient_of x")
  from quotient_of_pos [OF assms q]
  have a: "0 < a" and b: "0 < b" and x: "x = of_int a / of_int b" by simp_all
  define p where "p = bitlen a"
  define r where "r = bitlen b"
  have p1: "1 \<le> p" using a bitlen_eq_zero_iff [of a] bitlen_nonneg [of a] unfolding p_def by linarith
  have r1: "1 \<le> r" using b bitlen_eq_zero_iff [of b] bitlen_nonneg [of b] unfolding r_def by linarith
  have a_up: "(of_int a :: rat) < 2 powi p"
  proof -
    have "a < 2 ^ nat p" using bitlen_bounds [OF a] unfolding p_def by simp
    then have "(of_int a :: rat) < of_int (2 ^ nat p)" by (simp only: of_int_less_iff)
    then show ?thesis using p1 by (simp add: power_int_def)
  qed
  have b_lo: "(2 :: rat) powi (r - 1) \<le> of_int b"
  proof -
    have "2 ^ nat (r - 1) \<le> b" using bitlen_bounds [OF b] unfolding r_def by simp
    then have "(of_int (2 ^ nat (r - 1)) :: rat) \<le> of_int b" by (simp only: of_int_le_iff)
    then show ?thesis using r1 by (simp add: power_int_def)
  qed
  have bpos: "(0 :: rat) < of_int b" using b by simp
  have a_lo: "(2 :: rat) powi (p - 1) \<le> of_int a"
  proof -
    have "2 ^ nat (p - 1) \<le> a" using bitlen_bounds [OF a] unfolding p_def by simp
    then have "(of_int (2 ^ nat (p - 1)) :: rat) \<le> of_int a" by (simp only: of_int_le_iff)
    then show ?thesis using p1 by (simp add: power_int_def)
  qed
  have b_up: "(of_int b :: rat) < 2 powi r"
  proof -
    have "b < 2 ^ nat r" using bitlen_bounds [OF b] unfolding r_def by simp
    then have "(of_int b :: rat) < of_int (2 ^ nat r)" by (simp only: of_int_less_iff)
    then show ?thesis using r1 by (simp add: power_int_def)
  qed
  have up: "x < 2 powi (p - r + 1)"
  proof -
    have "x * 2 powi (r - 1) \<le> x * of_int b"
      using b_lo assms by (simp add: mult_left_mono)
    also have "\<dots> = of_int a" using bpos unfolding x by simp
    also have "\<dots> < 2 powi p" by (rule a_up)
    finally have "x * 2 powi (r - 1) < 2 powi p" .
    then have "x < 2 powi p / 2 powi (r - 1)"
      by (simp add: pos_less_divide_eq)
    also have "\<dots> = 2 powi (p - (r - 1))"
      by (simp only: pow2_diff)
    finally show ?thesis by (simp add: algebra_simps)
  qed
  have lo: "2 powi (p - r - 1) \<le> x"
  proof -
    have "2 powi (p - r - 1) * of_int b \<le> 2 powi (p - r - 1) * (2 powi r :: rat)"
      using b_up by (simp add: mult_left_mono)
    also have "\<dots> = 2 powi ((p - r - 1) + r)"
      by (simp only: pow2_add)
    also have "\<dots> = 2 powi (p - 1)" by (simp add: algebra_simps)
    also have "\<dots> \<le> of_int a" by (rule a_lo)
    finally have "2 powi (p - r - 1) * of_int b \<le> (of_int a :: rat)" .
    then have "2 powi (p - r - 1) \<le> (of_int a :: rat) / of_int b"
      using bpos by (simp add: pos_le_divide_eq)
    then show ?thesis unfolding x .
  qed
  show ?thesis
    using up lo by (simp add: ilog2_def q Let_def p_def r_def)
qed

lemma fl_pos:
  "0 < x \<Longrightarrow>
   fl x = of_int (round_half_even (x / 2 powi (ilog2 x - 52))) * 2 powi (ilog2 x - 52)"
  by (simp add: fl_def Let_def)

lemma fl_range:
  assumes "0 < x"
  shows "2 powi (ilog2 x) \<le> fl x \<and> fl x \<le> 2 powi (ilog2 x + 1)"
proof -
  define e where "e = ilog2 x"
  define u :: rat where "u = 2 powi (e - 52)"
  have u: "0 < u" unfolding u_def by (rule pow2_pos)
  have e_lo: "2 powi e = 2 ^ 52 * u"
    using pow2_add [of 52 "e - 52"] unfolding u_def by simp
  have e_up: "2 powi (e + 1) = 2 ^ 53 * u"
    using pow2_add [of 53 "e - 52"] unfolding u_def by (simp add: algebra_simps)
  have b: "2 powi e \<le> x" "x < 2 powi (e + 1)"
    using ilog2_bounds [OF assms] unfolding e_def by simp_all
  have "of_int (2 ^ 52) \<le> x / u"
    using b(1) u unfolding e_lo by (simp add: pos_le_divide_eq)
  then have "round_half_even (of_int (2 ^ 52)) \<le> round_half_even (x / u)"
    by (rule round_half_even_mono)
  then have lo: "(2 ^ 52 :: rat) \<le> of_int (round_half_even (x / u))"
    unfolding round_half_even_of_int by (metis of_int_le_iff of_int_numeral of_int_power)
  have "x / u \<le> of_int (2 ^ 53)"
    using b(2) u unfolding e_up by (simp add: pos_divide_le_eq)
  then have "round_half_even (x / u) \<le> round_half_even (of_int (2 ^ 53))"
    by (rule round_half_even_mono)
  then have up: "of_int (round_half_even (x / u)) \<le> (2 ^ 53 :: rat)"
    unfolding round_half_even_of_int by (metis of_int_le_iff of_int_numeral of_int_power)
  have f: "fl x = of_int (round_half_even (x / u)) * u"
    using fl_pos [OF assms] unfolding u_def e_def .
  have "2 powi e \<le> fl x"
    unfolding f e_lo using lo u by (simp add: mult_right_mono)
  moreover have "fl x \<le> 2 powi (e + 1)"
    unfolding f e_up using up u by (simp add: mult_right_mono)
  ultimately show ?thesis unfolding e_def by simp
qed

lemma fl_nonneg: "0 \<le> x \<Longrightarrow> 0 \<le> fl x"
proof (cases "x = 0")
  case True
  then show ?thesis by (simp add: fl_0)
next
  case False
  assume "0 \<le> x"
  with False have "0 < x" by simp
  from fl_range [OF this] pow2_pos [of "ilog2 x"] show ?thesis by linarith
qed

lemma fl_mono:
  assumes "0 \<le> x" and "x \<le> y"
  shows "fl x \<le> fl y"
proof (cases "x = 0")
  case True
  then show ?thesis using assms fl_nonneg [of y] by (simp add: fl_0)
next
  case False
  with assms have x: "0 < x" and y: "0 < y" by simp_all
  have "2 powi (ilog2 x) \<le> x" using ilog2_bounds [OF x] by simp
  also have "x \<le> y" by fact
  also have "y < 2 powi (ilog2 y + 1)" using ilog2_bounds [OF y] by simp
  finally have "ilog2 x < ilog2 y + 1" by (rule pow2_less_imp)
  then consider "ilog2 x = ilog2 y" | "ilog2 x + 1 \<le> ilog2 y" by linarith
  then show ?thesis
  proof cases
    case 1
    have "x / 2 powi (ilog2 y - 52) \<le> y / 2 powi (ilog2 y - 52)"
      using assms(2) pow2_pos [of "ilog2 y - 52"] by (simp add: divide_right_mono)
    then have "round_half_even (x / 2 powi (ilog2 y - 52))
               \<le> round_half_even (y / 2 powi (ilog2 y - 52))"
      by (rule round_half_even_mono)
    then have "(of_int (round_half_even (x / 2 powi (ilog2 y - 52))) :: rat)
               \<le> of_int (round_half_even (y / 2 powi (ilog2 y - 52)))"
      by (simp only: of_int_le_iff)
    then show ?thesis
      using pow2_pos [of "ilog2 y - 52"]
      unfolding fl_pos [OF x] fl_pos [OF y] 1 by (simp add: mult_right_mono)
  next
    case 2
    have "fl x \<le> 2 powi (ilog2 x + 1)" using fl_range [OF x] by simp
    also have "\<dots> \<le> 2 powi (ilog2 y)" using 2 by (rule pow2_mono)
    also have "\<dots> \<le> fl y" using fl_range [OF y] by simp
    finally show ?thesis .
  qed
qed

lemma py_round_0: "py_round 0 n = 0"
  using round_half_even_of_int [of 0] by (simp add: py_round_def fl_0)

lemma py_round_mono:
  assumes "0 \<le> x" and "x \<le> y"
  shows "py_round x n \<le> py_round y n"
proof -
  have p: "(0 :: rat) < 10 ^ n" by simp
  have "x * 10 ^ n \<le> y * 10 ^ n" using assms(2) p by (simp add: mult_right_mono)
  then have m: "round_half_even (x * 10 ^ n) \<le> round_half_even (y * 10 ^ n)"
    by (rule round_half_even_mono)
  have "0 \<le> x * 10 ^ n" using assms(1) by simp
  then have "0 \<le> round_half_even (x * 10 ^ n)" by (rule round_half_even_nonneg)
  then have nn: "(0 :: rat) \<le> of_int (round_half_even (x * 10 ^ n)) / 10 ^ n" by simp
  have "(of_int (round_half_even (x * 10 ^ n)) :: rat) / 10 ^ n
        \<le> of_int (round_half_even (y * 10 ^ n)) / 10 ^ n"
    using m p by (simp add: divide_right_mono)
  with nn show ?thesis unfolding py_round_def by (rule fl_mono)
qed

lemma py_round_nonneg: "0 \<le> x \<Longrightarrow> 0 \<le> py_round x n"
  using py_round_mono [of 0 x n] by (simp add: py_round_0)

lemma fl_1: "fl 1 = 1"
  by code_simp

lemma fl_70: "fl 70 = 70"
  by code_simp

lemma fl_100: "fl 100 = 100"
  by code_simp

lemma py_round_70: "py_round 70 2 = 70"
  by code_simp

lemma py_round_100: "py_round 100 2 = 100"
  by code_simp

subsection \<open>The grading loop\<close>

lemma find_question_None_iff:
  "find (\<lambda>q. QuizQuestion_id q = i) qs = None \<longleftrightarrow> i \<notin> QuizQuestion_id ` set qs"
  by (auto simp: find_None_iff)

lemma grade_answers_append:
  "grade_answers qs (xs @ ys) acc = grade_answers qs ys (grade_answers qs xs acc)"
proof (induction xs arbitrary: acc)
  case Nil
  show ?case by (cases acc) simp
next
  case (Cons a xs)
  show ?case by (cases acc) (simp add: Cons.IH split: option.split)
qed

lemma grade_answers_shift:
  "grade_answers qs xs (s + s', f @ f') =
     (s + fst (grade_answers qs xs (s', f')), f @ snd (grade_answers qs xs (s', f')))"
proof (induction xs arbitrary: s' f')
  case Nil
  show ?case by simp
next
  case (Cons a xs)
  show ?case
  proof (cases "find (\<lambda>q. QuizQuestion_id q = QuizAnswer_question_id a) qs")
    case None
    then show ?thesis using Cons.IH [of s' f'] by simp
  next
    case (Some q)
    show ?thesis
    proof (cases "QuizAnswer_answer a = QuizQuestion_correct_answer q")
      case True
      then show ?thesis
        using Some Cons.IH [of "s' + 1"] by (simp add: add.assoc)
    next
      case False
      then show ?thesis
        using Some Cons.IH [of s'] by simp
    qed
  qed
qed

lemma grade_answers_acc:
  "grade_answers qs xs (s, f) =
     (s + fst (grade_answers qs xs (0, [])), f @ snd (grade_answers qs xs (0, [])))"
  using grade_answers_shift [of qs xs s 0 f "[]"] by simp

lemma grade_answers_skip:
  "QuizAnswer_question_id a \<notin> QuizQuestion_id ` set qs \<Longrightarrow>
   grade_answers qs (a # xs) acc = grade_answers qs xs acc"
proof -
  assume "QuizAnswer_question_id a \<notin> QuizQuestion_id ` set qs"
  then have "find (\<lambda>q. QuizQuestion_id q = QuizAnswer_question_id a) qs = None"
    by (simp add: find_question_None_iff)
  then show ?thesis by (cases acc) simp
qed

lemma length_feedback:
  "length (snd (grade_answers qs xs (s, f))) =
     length f + length (filter (\<lambda>a. QuizAnswer_question_id a \<in> QuizQuestion_id ` set qs) xs)"
proof (induction xs arbitrary: s f)
  case Nil
  show ?case by simp
next
  case (Cons a xs)
  show ?case
  proof (cases "find (\<lambda>q. QuizQuestion_id q = QuizAnswer_question_id a) qs")
    case None
    then have "QuizAnswer_question_id a \<notin> QuizQuestion_id ` set qs"
      using find_question_None_iff [of "QuizAnswer_question_id a" qs] by simp
    then show ?thesis
      using None Cons.IH [of s f] by simp
  next
    case (Some q)
    then have "QuizAnswer_question_id a \<in> QuizQuestion_id ` set qs"
      using find_question_None_iff [of "QuizAnswer_question_id a" qs] by simp
    then show ?thesis
      using Some by (simp add: Cons.IH)
  qed
qed

lemma score_bounds:
  "s \<le> fst (grade_answers qs xs (s, f)) \<and>
   fst (grade_answers qs xs (s, f)) - s \<le>
     int (length (snd (grade_answers qs xs (s, f)))) - int (length f)"
proof (induction xs arbitrary: s f)
  case Nil
  show ?case by simp
next
  case (Cons a xs)
  show ?case
  proof (cases "find (\<lambda>q. QuizQuestion_id q = QuizAnswer_question_id a) qs")
    case None
    then show ?thesis using Cons.IH [of s f] by simp
  next
    case (Some q)
    show ?thesis
    proof (cases "QuizAnswer_answer a = QuizQuestion_correct_answer q")
      case True
      then show ?thesis
        using Some Cons.IH [of "s + 1" "f @ [''Q'' @ str_int (QuizAnswer_question_id a) @ '': '' @ check_mark @
                     '' Correct! '' @ QuizQuestion_explanation q]"] by simp
    next
      case False
      then show ?thesis
        using Some Cons.IH [of s "f @ [''Q'' @ str_int (QuizAnswer_question_id a) @ '': '' @ ballot_x @
                     '' Incorrect. '' @ QuizQuestion_explanation q]"] by simp
    qed
  qed
qed

lemma submit_quiz_found:
  assumes "find (\<lambda>q. Quiz_id q = quiz_id) db = Some quiz"
  shows "submit_quiz db quiz_id submission =
     Inr \<lparr>QuizResult_score =
            fst (grade_answers (Quiz_questions quiz) (QuizSubmission_answers submission) (0, [])),
          QuizResult_total = int (length (Quiz_questions quiz)),
          QuizResult_percentage =
            py_round
              (if Quiz_questions quiz \<noteq> []
               then py_float_mul
                      (py_truediv
                         (fst (grade_answers (Quiz_questions quiz)
                                 (QuizSubmission_answers submission) (0, [])))
                         (int (length (Quiz_questions quiz)))) 100
               else 0) 2,
          QuizResult_passed =
            (if Quiz_questions quiz \<noteq> []
             then py_float_mul
                    (py_truediv
                       (fst (grade_answers (Quiz_questions quiz)
                               (QuizSubmission_answers submission) (0, [])))
                       (int (length (Quiz_questions quiz)))) 100
             else 0) \<ge> 70,
          QuizResult_feedback =
            snd (grade_answers (Quiz_questions quiz) (QuizSubmission_answers submission) (0, []))\<rparr>"
  using assms by (simp add: submit_quiz_def Let_def split_beta)

subsection \<open>Scores and percentages\<close>

lemma find_distinct_question:
  assumes "distinct (map QuizQuestion_id qs)" and "q \<in> set qs"
  shows "find (\<lambda>q'. QuizQuestion_id q' = QuizQuestion_id q) qs = Some q"
  using assms by (induction qs) (auto simp: image_iff)

lemma all_correct_score:
  assumes "\<forall>a \<in> set xs. \<exists>q. find (\<lambda>q. QuizQuestion_id q = QuizAnswer_question_id a) qs = Some q
              \<and> QuizAnswer_answer a = QuizQuestion_correct_answer q"
  shows "fst (grade_answers qs xs (s, f)) = s + int (length xs)"
  using assms
proof (induction xs arbitrary: s f)
  case Nil
  show ?case by simp
next
  case (Cons a xs)
  from Cons.prems obtain q where
    q: "find (\<lambda>q. QuizQuestion_id q = QuizAnswer_question_id a) qs = Some q"
       "QuizAnswer_answer a = QuizQuestion_correct_answer q"
    by auto
  from Cons.prems have rest: "\<forall>a \<in> set xs. \<exists>q.
      find (\<lambda>q. QuizQuestion_id q = QuizAnswer_question_id a) qs = Some q
      \<and> QuizAnswer_answer a = QuizQuestion_correct_answer q"
    by simp
  show ?case using q Cons.IH [OF rest] by simp
qed

lemma score_le_total_distinct:
  assumes "distinct (map QuizAnswer_question_id xs)"
  shows "fst (grade_answers qs xs (0, [])) \<le> int (length qs)"
proof -
  let ?m = "filter (\<lambda>a. QuizAnswer_question_id a \<in> QuizQuestion_id ` set qs) xs"
  have d: "distinct (map QuizAnswer_question_id ?m)"
    using assms by (rule distinct_map_filter)
  have sub: "set (map QuizAnswer_question_id ?m) \<subseteq> QuizQuestion_id ` set qs"
    by auto
  have "length ?m = length (map QuizAnswer_question_id ?m)" by simp
  also have "\<dots> = card (set (map QuizAnswer_question_id ?m))"
    using d by (simp only: distinct_card)
  also have "\<dots> \<le> card (QuizQuestion_id ` set qs)"
    using sub by (intro card_mono) simp_all
  also have "\<dots> \<le> card (set qs)" by (rule card_image_le) simp
  also have "\<dots> \<le> length qs" by (rule card_length)
  finally have l: "length ?m \<le> length qs" .
  have "fst (grade_answers qs xs (0, [])) \<le> int (length (snd (grade_answers qs xs (0, []))))"
    using score_bounds [of 0 qs xs "[]"] by simp
  also have "\<dots> = int (length ?m)"
    using length_feedback [of qs xs 0 "[]"] by simp
  finally show ?thesis using l by simp
qed

lemma score_nonneg: "0 \<le> fst (grade_answers qs xs (0, []))"
  using score_bounds [of 0 qs xs "[]"] by simp

lemma raw_percentage_nonneg:
  "0 \<le> s \<Longrightarrow> 0 < t \<Longrightarrow> 0 \<le> py_float_mul (py_truediv s t) 100"
  unfolding py_float_mul_def py_truediv_def
  by (intro fl_nonneg mult_nonneg_nonneg) simp_all

lemma raw_percentage_le_100:
  assumes "0 \<le> s" and "s \<le> t" and "0 < t"
  shows "py_float_mul (py_truediv s t) 100 \<le> 100"
proof -
  have q: "0 \<le> (of_int s :: rat) / of_int t" "(of_int s :: rat) / of_int t \<le> 1"
    using assms by simp_all
  have "fl (of_int s / of_int t) \<le> fl 1" using q by (rule fl_mono)
  then have le1: "py_truediv s t \<le> 1" by (simp add: py_truediv_def fl_1)
  have nn: "0 \<le> py_truediv s t" unfolding py_truediv_def using q(1) by (rule fl_nonneg)
  have "fl (py_truediv s t * 100) \<le> fl 100"
    using nn le1 by (intro fl_mono) simp_all
  then show ?thesis by (simp add: py_float_mul_def fl_100)
qed

lemma find_sample_question:
  "i \<in> set js \<Longrightarrow>
   find (\<lambda>q. QuizQuestion_id q = i) (map sample_question js) = Some (sample_question i)"
  by (induction js) (auto simp: sample_question_def)

lemma sample_answers_score:
  assumes "set js \<subseteq> set ks"
  shows "fst (grade_answers (map sample_question ks)
                (map correct_answer_to (map sample_question js)) (0, [])) = int (length js)"
proof -
  have "\<forall>a \<in> set (map correct_answer_to (map sample_question js)).
          \<exists>q. find (\<lambda>q. QuizQuestion_id q = QuizAnswer_question_id a) (map sample_question ks)
                 = Some q \<and> QuizAnswer_answer a = QuizQuestion_correct_answer q"
  proof
    fix a assume "a \<in> set (map correct_answer_to (map sample_question js))"
    then obtain j where j: "j \<in> set js" and a: "a = correct_answer_to (sample_question j)"
      by auto
    from j assms have "j \<in> set ks" by blast
    then have "find (\<lambda>q. QuizQuestion_id q = j) (map sample_question ks)
                 = Some (sample_question j)"
      by (rule find_sample_question)
    then show "\<exists>q. find (\<lambda>q. QuizQuestion_id q = QuizAnswer_question_id a)
                       (map sample_question ks) = Some q
                 \<and> QuizAnswer_answer a = QuizQuestion_correct_answer q"
      unfolding a by (simp add: correct_answer_to_def sample_question_def)
  qed
  from all_correct_score [OF this, of 0 "[]"] show ?thesis by simp
qed

lemma raw_1402_2003:
  "py_float_mul (py_truediv 1402 2003) 100 = 2462730387845355 / 35184372088832"
  by code_simp

lemma round_1402_2003:
  "py_round (2462730387845355 / 35184372088832) 2 = 70"
  by code_simp

subsection \<open>The shipped quiz store\<close>

lemma find_quiz_1: "find (\<lambda>q. Quiz_id q = 1) quizzes_db = Some (quizzes_db ! 0)"
  by (simp add: quizzes_db_def)

lemma find_quiz_2: "find (\<lambda>q. Quiz_id q = 2) quizzes_db = Some (quizzes_db ! 1)"
  by (simp add: quizzes_db_def)

lemma length_quiz_1: "length (Quiz_questions (quizzes_db ! 0)) = 3"
  by (simp add: quizzes_db_def)

lemma quiz_ids: "Quiz_id ` set quizzes_db = {1, 2}"
  by (auto simp: quizzes_db_def)

subsection \<open>The claims about grading\<close>

text \<open>
  Claim C4. Whenever the quiz id resolves to a quiz of the store, grading returns a
  result whose \<open>total\<close> is the number of questions of that quiz, whatever the
  submission holds.
\<close>

theorem total_is_question_count:
  assumes "find (\<lambda>q. Quiz_id q = quiz_id) db = Some quiz"
  shows "\<exists>r. submit_quiz db quiz_id submission = Inr r \<and>
             QuizResult_total r = int (length (Quiz_questions quiz))"
  by (simp add: submit_quiz_found [OF assms])

theorem total_is_question_count_witness:
  "find (\<lambda>q. Quiz_id q = 1) quizzes_db = Some (quizzes_db ! 0) \<and>
   (\<exists>r. submit_quiz quizzes_db 1
          \<lparr>QuizSubmission_answers =
             [\<lparr>QuizAnswer_question_id = 1, QuizAnswer_answer = 1\<rparr>,
              \<lparr>QuizAnswer_question_id = 1, QuizAnswer_answer = 0\<rparr>,
              \<lparr>QuizAnswer_question_id = 9, QuizAnswer_answer = 2\<rparr>,
              \<lparr>QuizAnswer_question_id = 2, QuizAnswer_answer = 1\<rparr>,
              \<lparr>QuizAnswer_question_id = 3, QuizAnswer_answer = 2\<rparr>]\<rparr> = Inr r \<and>
        QuizResult_total r = 3)"
  using total_is_question_count [OF find_quiz_1] find_quiz_1 length_quiz_1 by simp

text \<open>
  Claim C5. For a quiz id that no quiz of the store carries, grading raises the 404
  exception "Quiz not found" and returns no result, whatever the submission holds.
\<close>

theorem unknown_quiz_not_found:
  assumes "quiz_id \<notin> Quiz_id ` set db"
  shows "submit_quiz db quiz_id submission = Inl (HTTPException 404 ''Quiz not found'') \<and>
         (\<forall>r. submit_quiz db quiz_id submission \<noteq> Inr r)"
proof -
  have "find (\<lambda>q. Quiz_id q = quiz_id) db = None"
    using assms by (auto simp: find_None_iff)
  then show ?thesis by (simp add: submit_quiz_def)
qed

theorem unknown_quiz_not_found_witness:
  "(3::int) \<notin> Quiz_id ` set quizzes_db \<and>
   submit_quiz quizzes_db 3
     \<lparr>QuizSubmission_answers = [\<lparr>QuizAnswer_question_id = 1, QuizAnswer_answer = 1\<rparr>]\<rparr>
     = Inl (HTTPException 404 ''Quiz not found'')"
proof -
  have h: "(3::int) \<notin> Quiz_id ` set quizzes_db" by (simp add: quiz_ids)
  show ?thesis using h unknown_quiz_not_found [OF h] by simp
qed

text \<open>
  Claim C8. Grading a quiz of the store with no answers gives score 0, no feedback,
  the quiz's question count as total, percentage 0 and \<open>passed = False\<close>.
\<close>

theorem empty_submission:
  assumes "find (\<lambda>q. Quiz_id q = quiz_id) db = Some quiz"
  shows "submit_quiz db quiz_id \<lparr>QuizSubmission_answers = []\<rparr> =
           Inr \<lparr>QuizResult_score = 0,
                QuizResult_total = int (length (Quiz_questions quiz)),
                QuizResult_percentage = 0,
                QuizResult_passed = False,
                QuizResult_feedback = []\<rparr>"
  by (simp add: submit_quiz_found [OF assms] py_truediv_def py_float_mul_def fl_0 py_round_0)

theorem empty_submission_witness:
  "find (\<lambda>q. Quiz_id q = 2) quizzes_db = Some (quizzes_db ! 1) \<and>
   submit_quiz quizzes_db 2 \<lparr>QuizSubmission_answers = []\<rparr> =
     Inr \<lparr>QuizResult_score = 0, QuizResult_total = 2, QuizResult_percentage = 0,
          QuizResult_passed = False, QuizResult_feedback = []\<rparr>"
proof -
  have "length (Quiz_questions (quizzes_db ! 1)) = 2" by (simp add: quizzes_db_def)
  then show ?thesis using empty_submission [OF find_quiz_2] find_quiz_2 by simp
qed

text \<open>
  Claim C10. The feedback of a result has one entry for each submitted answer whose
  question id is the id of a question of the quiz, duplicates counted; the score is at
  most the number of feedback entries, which is at most the number of submitted answers.
\<close>

theorem feedback_length_and_score_bound:
  assumes "find (\<lambda>q. Quiz_id q = quiz_id) db = Some quiz"
  shows "\<exists>r. submit_quiz db quiz_id submission = Inr r \<and>
           length (QuizResult_feedback r) =
             length (filter (\<lambda>a. QuizAnswer_question_id a \<in>
                                  QuizQuestion_id ` set (Quiz_questions quiz))
                       (QuizSubmission_answers submission)) \<and>
           QuizResult_score r \<le> int (length (QuizResult_feedback r)) \<and>
           length (QuizResult_feedback r) \<le> length (QuizSubmission_answers submission)"
proof -
  let ?qs = "Quiz_questions quiz" and ?xs = "QuizSubmission_answers submission"
  have len: "length (snd (grade_answers ?qs ?xs (0, []))) =
      length (filter (\<lambda>a. QuizAnswer_question_id a \<in> QuizQuestion_id ` set ?qs) ?xs)"
    using length_feedback [of ?qs ?xs 0 "[]"] by simp
  have sc: "fst (grade_answers ?qs ?xs (0, [])) \<le> int (length (snd (grade_answers ?qs ?xs (0, []))))"
    using score_bounds [of 0 ?qs ?xs "[]"] by simp
  have "length (filter (\<lambda>a. QuizAnswer_question_id a \<in> QuizQuestion_id ` set ?qs) ?xs) \<le> length ?xs"
    by (rule length_filter_le)
  with len sc show ?thesis
    by (simp add: submit_quiz_found [OF assms])
qed

theorem feedback_length_and_score_bound_witness:
  "find (\<lambda>q. Quiz_id q = 1) quizzes_db = Some (quizzes_db ! 0) \<and>
   (\<exists>r. submit_quiz quizzes_db 1
          \<lparr>QuizSubmission_answers =
             [\<lparr>QuizAnswer_question_id = 1, QuizAnswer_answer = 1\<rparr>,
              \<lparr>QuizAnswer_question_id = 1, QuizAnswer_answer = 0\<rparr>,
              \<lparr>QuizAnswer_question_id = 9, QuizAnswer_answer = 2\<rparr>,
              \<lparr>QuizAnswer_question_id = 3, QuizAnswer_answer = 2\<rparr>]\<rparr> = Inr r \<and>
        length (QuizResult_feedback r) = 3 \<and>
        QuizResult_score r \<le> int (length (QuizResult_feedback r)) \<and>
        length (QuizResult_feedback r) \<le> 4)"
proof -
  have ids: "QuizQuestion_id ` set (Quiz_questions (quizzes_db ! 0)) = {1, 2, 3}"
    by (auto simp: quizzes_db_def)
  from feedback_length_and_score_bound [OF find_quiz_1,
      of "\<lparr>QuizSubmission_answers =
             [\<lparr>QuizAnswer_question_id = 1, QuizAnswer_answer = 1\<rparr>,
              \<lparr>QuizAnswer_question_id = 1, QuizAnswer_answer = 0\<rparr>,
              \<lparr>QuizAnswer_question_id = 9, QuizAnswer_answer = 2\<rparr>,
              \<lparr>QuizAnswer_question_id = 3, QuizAnswer_answer = 2\<rparr>]\<rparr>"]
  obtain r where
    r: "submit_quiz quizzes_db 1
          \<lparr>QuizSubmission_answers =
             [\<lparr>QuizAnswer_question_id = 1, QuizAnswer_answer = 1\<rparr>,
              \<lparr>QuizAnswer_question_id = 1, QuizAnswer_answer = 0\<rparr>,
              \<lparr>QuizAnswer_question_id = 9, QuizAnswer_answer = 2\<rparr>,
              \<lparr>QuizAnswer_question_id = 3, QuizAnswer_answer = 2\<rparr>]\<rparr> = Inr r"
    and len: "length (QuizResult_feedback r) =
        length (filter (\<lambda>a. QuizAnswer_question_id a \<in>
                                  QuizQuestion_id ` set (Quiz_questions (quizzes_db ! 0)))
             (QuizSubmission_answers \<lparr>QuizSubmission_answers =
             [\<lparr>QuizAnswer_question_id = 1, QuizAnswer_answer = 1\<rparr>,
              \<lparr>QuizAnswer_question_id = 1, QuizAnswer_answer = 0\<rparr>,
              \<lparr>QuizAnswer_question_id = 9, QuizAnswer_answer = 2\<rparr>,
              \<lparr>QuizAnswer_question_id = 3, QuizAnswer_answer = 2\<rparr>]\<rparr>))"
    and sc: "QuizResult_score r \<le> int (length (QuizResult_feedback r))"
    by blast
  from len have "length (QuizResult_feedback r) = 3"
    by (simp add: ids)
  with r sc find_quiz_1 show ?thesis by auto
qed

text \<open>
  Claim C6. A submitted answer whose question id is the id of no question of the quiz is
  skipped: grading still returns a result, and it is the result of the same submission
  without that answer (same score, same feedback, same everything).
\<close>

theorem unmatched_answer_skipped:
  assumes "find (\<lambda>q. Quiz_id q = quiz_id) db = Some quiz"
    and "QuizAnswer_question_id a \<notin> QuizQuestion_id ` set (Quiz_questions quiz)"
  shows "\<exists>r. submit_quiz db quiz_id \<lparr>QuizSubmission_answers = xs @ a # ys\<rparr> = Inr r \<and>
             submit_quiz db quiz_id \<lparr>QuizSubmission_answers = xs @ ys\<rparr> = Inr r"
proof -
  have "grade_answers (Quiz_questions quiz) (xs @ a # ys) (0, []) =
        grade_answers (Quiz_questions quiz) (xs @ ys) (0, [])"
    by (simp add: grade_answers_append grade_answers_skip [OF assms(2)])
  then show ?thesis
    by (simp add: submit_quiz_found [OF assms(1)])
qed

theorem unmatched_answer_skipped_witness:
  "find (\<lambda>q. Quiz_id q = 1) quizzes_db = Some (quizzes_db ! 0) \<and>
   QuizAnswer_question_id \<lparr>QuizAnswer_question_id = 9, QuizAnswer_answer = 2\<rparr>
     \<notin> QuizQuestion_id ` set (Quiz_questions (quizzes_db ! 0)) \<and>
   (\<exists>r. submit_quiz quizzes_db 1
          \<lparr>QuizSubmission_answers =
             [\<lparr>QuizAnswer_question_id = 1, QuizAnswer_answer = 1\<rparr>] @
             \<lparr>QuizAnswer_question_id = 9, QuizAnswer_answer = 2\<rparr> #
             [\<lparr>QuizAnswer_question_id = 3, QuizAnswer_answer = 2\<rparr>]\<rparr> = Inr r \<and>
        submit_quiz quizzes_db 1
          \<lparr>QuizSubmission_answers =
             [\<lparr>QuizAnswer_question_id = 1, QuizAnswer_answer = 1\<rparr>] @
             [\<lparr>QuizAnswer_question_id = 3, QuizAnswer_answer = 2\<rparr>]\<rparr> = Inr r)"
proof -
  have ids: "QuizQuestion_id ` set (Quiz_questions (quizzes_db ! 0)) = {1, 2, 3}"
    by (auto simp: quizzes_db_def)
  have h: "QuizAnswer_question_id \<lparr>QuizAnswer_question_id = 9, QuizAnswer_answer = 2\<rparr>
     \<notin> QuizQuestion_id ` set (Quiz_questions (quizzes_db ! 0))"
    by (simp add: ids)
  show ?thesis
    using find_quiz_1 h
      unmatched_answer_skipped [OF find_quiz_1 h,
        of "[\<lparr>QuizAnswer_question_id = 1, QuizAnswer_answer = 1\<rparr>]"
           "[\<lparr>QuizAnswer_question_id = 3, QuizAnswer_answer = 2\<rparr>]"]
    by blast
qed

text \<open>
  Claim C2. Every occurrence of a submitted answer is graded on its own, whether or not
  the same question id was submitted before: appending an answer that matches a question
  adds 1 to the score exactly when it is correct, appends one feedback line of its own,
  and leaves total at the quiz's question count. On the shipped quiz 1 (correct options
  1, 1, 2) the submission [{q1, 1}, {q1, 1}] gives score 2 and total 3.
\<close>

theorem duplicates_processed_independently:
  assumes "find (\<lambda>q. Quiz_id q = quiz_id) db = Some quiz"
    and "find (\<lambda>q. QuizQuestion_id q = QuizAnswer_question_id a) (Quiz_questions quiz)
           = Some question"
  shows "(\<exists>r r'. submit_quiz db quiz_id \<lparr>QuizSubmission_answers = xs\<rparr> = Inr r \<and>
            submit_quiz db quiz_id \<lparr>QuizSubmission_answers = xs @ [a]\<rparr> = Inr r' \<and>
            QuizResult_score r' =
              QuizResult_score r +
                (if QuizAnswer_answer a = QuizQuestion_correct_answer question then 1 else 0) \<and>
            (\<exists>line. QuizResult_feedback r' = QuizResult_feedback r @ [line]) \<and>
            QuizResult_total r' = int (length (Quiz_questions quiz)) \<and>
            QuizResult_total r = int (length (Quiz_questions quiz))) \<and>
         (\<exists>r. submit_quiz quizzes_db 1
                 \<lparr>QuizSubmission_answers =
                    [\<lparr>QuizAnswer_question_id = 1, QuizAnswer_answer = 1\<rparr>,
                     \<lparr>QuizAnswer_question_id = 1, QuizAnswer_answer = 1\<rparr>]\<rparr> = Inr r \<and>
               QuizResult_score r = 2 \<and> QuizResult_total r = 3 \<and>
               length (QuizResult_feedback r) = 2)"
proof
  let ?qs = "Quiz_questions quiz"
  obtain s f where sf: "grade_answers ?qs xs (0, []) = (s, f)"
    by (cases "grade_answers ?qs xs (0, [])")
  have step: "grade_answers ?qs (xs @ [a]) (0, []) = grade_answers ?qs [a] (s, f)"
    by (simp only: grade_answers_append sf)
  show "\<exists>r r'. submit_quiz db quiz_id \<lparr>QuizSubmission_answers = xs\<rparr> = Inr r \<and>
            submit_quiz db quiz_id \<lparr>QuizSubmission_answers = xs @ [a]\<rparr> = Inr r' \<and>
            QuizResult_score r' =
              QuizResult_score r +
                (if QuizAnswer_answer a = QuizQuestion_correct_answer question then 1 else 0) \<and>
            (\<exists>line. QuizResult_feedback r' = QuizResult_feedback r @ [line]) \<and>
            QuizResult_total r' = int (length (Quiz_questions quiz)) \<and>
            QuizResult_total r = int (length (Quiz_questions quiz))"
    using assms(2) by (simp add: submit_quiz_found [OF assms(1)] step sf)
next
  have "submit_quiz quizzes_db 1
          \<lparr>QuizSubmission_answers =
             [\<lparr>QuizAnswer_question_id = 1, QuizAnswer_answer = 1\<rparr>,
              \<lparr>QuizAnswer_question_id = 1, QuizAnswer_answer = 1\<rparr>]\<rparr> =
    Inr \<lparr>QuizResult_score = 2, QuizResult_total = 3,
         QuizResult_percentage = 4691484174324859 / 70368744177664,
         QuizResult_passed = False,
         QuizResult_feedback =
           [''Q1: '' @ check_mark @ '' Correct! A class is a blueprint or template that defines the structure and behavior for objects.'',
            ''Q1: '' @ check_mark @ '' Correct! A class is a blueprint or template that defines the structure and behavior for objects.'']\<rparr>"
    by code_simp
  then show "\<exists>r. submit_quiz quizzes_db 1
                 \<lparr>QuizSubmission_answers =
                    [\<lparr>QuizAnswer_question_id = 1, QuizAnswer_answer = 1\<rparr>,
                     \<lparr>QuizAnswer_question_id = 1, QuizAnswer_answer = 1\<rparr>]\<rparr> = Inr r \<and>
               QuizResult_score r = 2 \<and> QuizResult_total r = 3 \<and>
               length (QuizResult_feedback r) = 2"
    by simp
qed

theorem duplicates_processed_independently_witness:
  "find (\<lambda>q. Quiz_id q = 1) quizzes_db = Some (quizzes_db ! 0) \<and>
   find (\<lambda>q. QuizQuestion_id q =
                QuizAnswer_question_id \<lparr>QuizAnswer_question_id = 1, QuizAnswer_answer = 1\<rparr>)
     (Quiz_questions (quizzes_db ! 0)) = Some (Quiz_questions (quizzes_db ! 0) ! 0) \<and>
   (\<exists>r r'. submit_quiz quizzes_db 1
        \<lparr>QuizSubmission_answers = [\<lparr>QuizAnswer_question_id = 1, QuizAnswer_answer = 1\<rparr>]\<rparr> = Inr r \<and>
      submit_quiz quizzes_db 1
        \<lparr>QuizSubmission_answers =
           [\<lparr>QuizAnswer_question_id = 1, QuizAnswer_answer = 1\<rparr>] @
           [\<lparr>QuizAnswer_question_id = 1, QuizAnswer_answer = 1\<rparr>]\<rparr> = Inr r' \<and>
      QuizResult_score r' = QuizResult_score r + 1 \<and>
      (\<exists>line. QuizResult_feedback r' = QuizResult_feedback r @ [line]) \<and>
      QuizResult_total r' = 3 \<and> QuizResult_total r = 3)"
proof -
  have h: "find (\<lambda>q. QuizQuestion_id q =
                QuizAnswer_question_id \<lparr>QuizAnswer_question_id = 1, QuizAnswer_answer = 1\<rparr>)
     (Quiz_questions (quizzes_db ! 0)) = Some (Quiz_questions (quizzes_db ! 0) ! 0)"
    by (simp add: quizzes_db_def)
  have c: "QuizAnswer_answer \<lparr>QuizAnswer_question_id = 1, QuizAnswer_answer = 1\<rparr> =
           QuizQuestion_correct_answer (Quiz_questions (quizzes_db ! 0) ! 0)"
    by (simp add: quizzes_db_def)
  show ?thesis
    using find_quiz_1 h
      duplicates_processed_independently [OF find_quiz_1 h,
        of "[\<lparr>QuizAnswer_question_id = 1, QuizAnswer_answer = 1\<rparr>]"]
    by (simp only: c length_quiz_1 if_True) simp
qed

text \<open>
  Claim C1, as stated, fails: the percentage is not always at most 100. On the shipped
  quiz 1 the answer {q1, 1} submitted four times scores 4 out of 3, and the percentage
  field is the float 133.33.
\<close>

theorem percentage_above_100_counterexample:
  "\<exists>r. submit_quiz quizzes_db 1
          \<lparr>QuizSubmission_answers =
             [\<lparr>QuizAnswer_question_id = 1, QuizAnswer_answer = 1\<rparr>,
              \<lparr>QuizAnswer_question_id = 1, QuizAnswer_answer = 1\<rparr>,
              \<lparr>QuizAnswer_question_id = 1, QuizAnswer_answer = 1\<rparr>,
              \<lparr>QuizAnswer_question_id = 1, QuizAnswer_answer = 1\<rparr>]\<rparr> = Inr r \<and>
        QuizResult_score r = 4 \<and> QuizResult_total r = 3 \<and>
        QuizResult_percentage r = 4691132330603971 / 35184372088832 \<and>
        \<not> QuizResult_percentage r \<le> 100"
proof -
  have "(case submit_quiz quizzes_db 1
          \<lparr>QuizSubmission_answers =
             [\<lparr>QuizAnswer_question_id = 1, QuizAnswer_answer = 1\<rparr>,
              \<lparr>QuizAnswer_question_id = 1, QuizAnswer_answer = 1\<rparr>,
              \<lparr>QuizAnswer_question_id = 1, QuizAnswer_answer = 1\<rparr>,
              \<lparr>QuizAnswer_question_id = 1, QuizAnswer_answer = 1\<rparr>]\<rparr> of
          Inl e \<Rightarrow> False
        | Inr r \<Rightarrow> QuizResult_score r = 4 \<and> QuizResult_total r = 3 \<and>
            QuizResult_percentage r = 4691132330603971 / 35184372088832 \<and>
            \<not> QuizResult_percentage r \<le> 100)"
    by code_simp
  then show ?thesis by (auto split: sum.splits)
qed

text \<open>
  Claim C1, amended. The percentage field is never negative; it is at most 100 whenever
  the score is at most the total, which is the case whenever no question id is submitted
  more than once; for a quiz with at least one question it is
  \<^verbatim>\<open>round(score / total * 100, 2)\<close>, and for a quiz with no question it is 0.
\<close>

theorem percentage_bounds:
  assumes "find (\<lambda>q. Quiz_id q = quiz_id) db = Some quiz"
  shows "\<exists>r. submit_quiz db quiz_id submission = Inr r \<and>
           0 \<le> QuizResult_percentage r \<and>
           (QuizResult_score r \<le> QuizResult_total r \<longrightarrow> QuizResult_percentage r \<le> 100) \<and>
           (distinct (map QuizAnswer_question_id (QuizSubmission_answers submission)) \<longrightarrow>
              QuizResult_score r \<le> QuizResult_total r) \<and>
           (Quiz_questions quiz \<noteq> [] \<longrightarrow>
              QuizResult_percentage r =
                py_round (py_float_mul
                            (py_truediv (QuizResult_score r) (QuizResult_total r)) 100) 2) \<and>
           (Quiz_questions quiz = [] \<longrightarrow> QuizResult_percentage r = 0)"
proof -
  let ?qs = "Quiz_questions quiz" and ?xs = "QuizSubmission_answers submission"
  let ?s = "fst (grade_answers ?qs ?xs (0, []))" and ?t = "int (length ?qs)"
  let ?raw = "py_float_mul (py_truediv ?s ?t) 100"
  have s0: "0 \<le> ?s" by (rule score_nonneg)
  have nonneg: "?qs \<noteq> [] \<Longrightarrow> 0 \<le> py_round ?raw 2"
    using s0 by (intro py_round_nonneg raw_percentage_nonneg) simp_all
  have le100: "?qs \<noteq> [] \<Longrightarrow> ?s \<le> ?t \<Longrightarrow> py_round ?raw 2 \<le> 100"
  proof -
    assume ne: "?qs \<noteq> []" and le: "?s \<le> ?t"
    have "0 \<le> ?raw" using s0 ne by (intro raw_percentage_nonneg) simp_all
    moreover have "?raw \<le> 100" using s0 le ne by (intro raw_percentage_le_100) simp_all
    ultimately have "py_round ?raw 2 \<le> py_round 100 2" by (rule py_round_mono)
    then show ?thesis by (simp only: py_round_100)
  qed
  have dist: "distinct (map QuizAnswer_question_id ?xs) \<Longrightarrow> ?s \<le> ?t"
    by (rule score_le_total_distinct)
  show ?thesis
    using nonneg le100 dist
    by (cases "?qs = []") (simp_all add: submit_quiz_found [OF assms] py_round_0)
qed

theorem percentage_bounds_witness:
  "find (\<lambda>q. Quiz_id q = 1) quizzes_db = Some (quizzes_db ! 0) \<and>
   (\<exists>r. submit_quiz quizzes_db 1
          \<lparr>QuizSubmission_answers =
             [\<lparr>QuizAnswer_question_id = 1, QuizAnswer_answer = 1\<rparr>,
              \<lparr>QuizAnswer_question_id = 2, QuizAnswer_answer = 0\<rparr>,
              \<lparr>QuizAnswer_question_id = 3, QuizAnswer_answer = 2\<rparr>]\<rparr> = Inr r \<and>
        0 \<le> QuizResult_percentage r \<and> QuizResult_percentage r \<le> 100 \<and>
        QuizResult_score r = 2 \<and> QuizResult_total r = 3 \<and>
        QuizResult_percentage r = py_round (py_float_mul (py_truediv 2 3) 100) 2 \<and>
        QuizResult_percentage r = 4691484174324859 / 70368744177664)"
proof -
  let ?sub = "\<lparr>QuizSubmission_answers =
             [\<lparr>QuizAnswer_question_id = 1, QuizAnswer_answer = 1\<rparr>,
              \<lparr>QuizAnswer_question_id = 2, QuizAnswer_answer = 0\<rparr>,
              \<lparr>QuizAnswer_question_id = 3, QuizAnswer_answer = 2\<rparr>]\<rparr>"
  have d: "distinct (map QuizAnswer_question_id (QuizSubmission_answers ?sub))" by simp
  have ne: "Quiz_questions (quizzes_db ! 0) \<noteq> []" by (simp add: quizzes_db_def)
  have c: "(case submit_quiz quizzes_db 1 ?sub of
          Inl e \<Rightarrow> False
        | Inr r \<Rightarrow> QuizResult_score r = 2 \<and> QuizResult_total r = 3 \<and>
            QuizResult_percentage r = 4691484174324859 / 70368744177664)"
    by code_simp
  from percentage_bounds [OF find_quiz_1, of ?sub]
  obtain r where r: "submit_quiz quizzes_db 1 ?sub = Inr r"
    and p0: "0 \<le> QuizResult_percentage r"
    and p1: "QuizResult_score r \<le> QuizResult_total r \<longrightarrow> QuizResult_percentage r \<le> 100"
    and p2: "distinct (map QuizAnswer_question_id (QuizSubmission_answers ?sub)) \<longrightarrow>
              QuizResult_score r \<le> QuizResult_total r"
    and p3: "Quiz_questions (quizzes_db ! 0) \<noteq> [] \<longrightarrow>
              QuizResult_percentage r =
                py_round (py_float_mul
                            (py_truediv (QuizResult_score r) (QuizResult_total r)) 100) 2"
    by blast
  from c r have v: "QuizResult_score r = 2" "QuizResult_total r = 3"
      "QuizResult_percentage r = 4691484174324859 / 70368744177664"
    by simp_all
  from p2 d have "QuizResult_score r \<le> QuizResult_total r" by blast
  with p1 have "QuizResult_percentage r \<le> 100" by blast
  moreover from p3 ne have "QuizResult_percentage r =
      py_round (py_float_mul (py_truediv 2 3) 100) 2"
    unfolding v(1,2) by blast
  ultimately show ?thesis using r p0 v find_quiz_1 by blast
qed

text \<open>
  Claim C3, as stated, fails: \<open>passed\<close> is computed from the percentage before it is
  rounded. With 1402 of 2003 questions right the unrounded percentage is about 69.99501,
  so \<open>passed\<close> is false, while the percentage field rounds to exactly 70.0.
\<close>

theorem passed_iff_percentage_counterexample:
  "\<exists>r. submit_quiz [sample_quiz 2003] 1
          \<lparr>QuizSubmission_answers =
             map correct_answer_to (map sample_question [1..1402])\<rparr> = Inr r \<and>
        QuizResult_score r = 1402 \<and> QuizResult_total r = 2003 \<and>
        QuizResult_percentage r = 70 \<and> \<not> QuizResult_passed r"
proof -
  have f: "find (\<lambda>q. Quiz_id q = 1) [sample_quiz 2003] = Some (sample_quiz 2003)"
    by (simp add: sample_quiz_def)
  have qs: "Quiz_questions (sample_quiz 2003) = map sample_question [1..2003]"
    by (simp add: sample_quiz_def)
  have s: "fst (grade_answers (map sample_question [1..2003])
                (map correct_answer_to (map sample_question [1..1402])) (0, [])) = 1402"
    using sample_answers_score [of "[1..1402]" "[1..2003]"] by simp
  then have s': "fst (grade_answers (map sample_question [1..2003])
                (map (correct_answer_to \<circ> sample_question) [1..1402]) (0, [])) = 1402"
    by simp
  show ?thesis
    by (simp add: submit_quiz_found [OF f] qs s' raw_1402_2003 round_1402_2003)
qed

text \<open>
  Claim C3, amended. \<open>passed\<close> is true exactly when the unrounded percentage
  \<^verbatim>\<open>score / total * 100\<close> (0 for a quiz with no question) is at least 70, the boundary
  included. For the rounded field: \<open>passed\<close> implies a percentage of at least 70, and a
  percentage above 70 implies \<open>passed\<close>.
\<close>

theorem passed_iff_unrounded_percentage:
  assumes "find (\<lambda>q. Quiz_id q = quiz_id) db = Some quiz"
  shows "\<exists>r. submit_quiz db quiz_id submission = Inr r \<and>
           (QuizResult_passed r \<longleftrightarrow>
              70 \<le> (if Quiz_questions quiz \<noteq> []
                    then py_float_mul (py_truediv (QuizResult_score r) (QuizResult_total r)) 100
                    else 0)) \<and>
           (QuizResult_passed r \<longrightarrow> 70 \<le> QuizResult_percentage r) \<and>
           (70 < QuizResult_percentage r \<longrightarrow> QuizResult_passed r)"
proof -
  let ?qs = "Quiz_questions quiz" and ?xs = "QuizSubmission_answers submission"
  let ?s = "fst (grade_answers ?qs ?xs (0, []))" and ?t = "int (length ?qs)"
  let ?raw = "py_float_mul (py_truediv ?s ?t) 100"
  have s0: "0 \<le> ?s" by (rule score_nonneg)
  have up: "?qs \<noteq> [] \<Longrightarrow> 70 \<le> ?raw \<Longrightarrow> 70 \<le> py_round ?raw 2"
  proof -
    assume "70 \<le> ?raw"
    then have "py_round 70 2 \<le> py_round ?raw 2" by (intro py_round_mono) simp_all
    then show ?thesis by (simp only: py_round_70)
  qed
  have down: "?qs \<noteq> [] \<Longrightarrow> 70 < py_round ?raw 2 \<Longrightarrow> 70 \<le> ?raw"
  proof (rule ccontr)
    assume ne: "?qs \<noteq> []" and gt: "70 < py_round ?raw 2" and "\<not> 70 \<le> ?raw"
    then have lt: "?raw \<le> 70" by simp
    have "0 \<le> ?raw" using s0 ne by (intro raw_percentage_nonneg) simp_all
    then have "py_round ?raw 2 \<le> py_round 70 2" using lt by (rule py_round_mono)
    with gt show False by (simp add: py_round_70)
  qed
  show ?thesis
    using up down
    by (cases "?qs = []") (auto simp: submit_quiz_found [OF assms] py_round_0)
qed

theorem passed_iff_unrounded_percentage_witness:
  "find (\<lambda>q. Quiz_id q = 1) [sample_quiz 10] = Some (sample_quiz 10) \<and>
   (\<exists>r. submit_quiz [sample_quiz 10] 1
          \<lparr>QuizSubmission_answers =
             map correct_answer_to (map sample_question [1..7])\<rparr> = Inr r \<and>
        QuizResult_passed r \<and>
        70 \<le> py_float_mul (py_truediv (QuizResult_score r) (QuizResult_total r)) 100 \<and>
        QuizResult_score r = 7 \<and> QuizResult_total r = 10 \<and>
        QuizResult_percentage r = 70)"
proof -
  let ?sub = "\<lparr>QuizSubmission_answers = map correct_answer_to (map sample_question [1..7])\<rparr>"
  have f: "find (\<lambda>q. Quiz_id q = 1) [sample_quiz 10] = Some (sample_quiz 10)"
    by (simp add: sample_quiz_def)
  have ne: "Quiz_questions (sample_quiz 10) \<noteq> []"
    by code_simp
  have c: "(case submit_quiz [sample_quiz 10] 1 ?sub of
          Inl e \<Rightarrow> False
        | Inr r \<Rightarrow> QuizResult_score r = 7 \<and> QuizResult_total r = 10 \<and>
            QuizResult_percentage r = 70)"
    by code_simp
  from passed_iff_unrounded_percentage [OF f, of ?sub]
  obtain r where r: "submit_quiz [sample_quiz 10] 1 ?sub = Inr r"
    and p1: "QuizResult_passed r \<longleftrightarrow>
              70 \<le> (if Quiz_questions (sample_quiz 10) \<noteq> []
                    then py_float_mul (py_truediv (QuizResult_score r) (QuizResult_total r)) 100
                    else 0)"
    by blast
  from c r have v: "QuizResult_score r = 7" "QuizResult_total r = 10"
      "QuizResult_percentage r = 70"
    by simp_all
  have raw: "70 \<le> py_float_mul (py_truediv 7 10) 100" by code_simp
  from p1 ne raw have "QuizResult_passed r" unfolding v(1,2) by simp
  with r v raw f show ?thesis by auto
qed

text \<open>
  Claim C7, as stated, fails for a quiz with no question: the one submission that answers
  every question once is the empty one, and its result has percentage 0 and
  \<open>passed = False\<close>.
\<close>

theorem all_correct_empty_quiz_counterexample:
  "find (\<lambda>q. Quiz_id q = 1) [empty_quiz] = Some empty_quiz \<and>
   distinct (map QuizQuestion_id (Quiz_questions empty_quiz)) \<and>
   mset [] = mset (map correct_answer_to (Quiz_questions empty_quiz)) \<and>
   submit_quiz [empty_quiz] 1 \<lparr>QuizSubmission_answers = []\<rparr> =
     Inr \<lparr>QuizResult_score = 0, QuizResult_total = 0, QuizResult_percentage = 0,
          QuizResult_passed = False, QuizResult_feedback = []\<rparr>"
  by (simp add: empty_quiz_def submit_quiz_def py_round_0)

text \<open>
  Claim C7, amended. For a quiz of the store with at least one question and with distinct
  question ids, a submission that holds, in any order, exactly one answer per question,
  each the question's correct option, gives score = total = the question count,
  percentage 100.0 and \<open>passed = True\<close>.
\<close>

theorem all_correct_scores_full:
  assumes "find (\<lambda>q. Quiz_id q = quiz_id) db = Some quiz"
    and "distinct (map QuizQuestion_id (Quiz_questions quiz))"
    and "Quiz_questions quiz \<noteq> []"
    and "mset (QuizSubmission_answers submission) =
           mset (map correct_answer_to (Quiz_questions quiz))"
  shows "\<exists>r. submit_quiz db quiz_id submission = Inr r \<and>
           QuizResult_score r = int (length (Quiz_questions quiz)) \<and>
           QuizResult_total r = int (length (Quiz_questions quiz)) \<and>
           QuizResult_percentage r = 100 \<and>
           QuizResult_passed r"
proof -
  let ?qs = "Quiz_questions quiz" and ?xs = "QuizSubmission_answers submission"
  have set_eq: "set ?xs = correct_answer_to ` set ?qs"
    using assms(4) by (metis mset_eq_setD set_map)
  have len: "length ?xs = length ?qs"
    using assms(4) by (metis length_map mset_eq_length)
  have "\<forall>a \<in> set ?xs. \<exists>q. find (\<lambda>q. QuizQuestion_id q = QuizAnswer_question_id a) ?qs = Some q
              \<and> QuizAnswer_answer a = QuizQuestion_correct_answer q"
  proof
    fix a assume "a \<in> set ?xs"
    with set_eq obtain q where q: "q \<in> set ?qs" and a: "a = correct_answer_to q" by auto
    have "find (\<lambda>q'. QuizQuestion_id q' = QuizQuestion_id q) ?qs = Some q"
      using assms(2) q by (rule find_distinct_question)
    then show "\<exists>q. find (\<lambda>q. QuizQuestion_id q = QuizAnswer_question_id a) ?qs = Some q
              \<and> QuizAnswer_answer a = QuizQuestion_correct_answer q"
      unfolding a by (simp add: correct_answer_to_def)
  qed
  from all_correct_score [OF this, of 0 "[]"]
  have score: "fst (grade_answers ?qs ?xs (0, [])) = int (length ?qs)"
    by (simp add: len)
  have pos: "(of_int (int (length ?qs)) :: rat) \<noteq> 0"
    using assms(3) by simp
  have raw: "py_float_mul (py_truediv (int (length ?qs)) (int (length ?qs))) 100 = 100"
    using pos by (simp add: py_float_mul_def py_truediv_def fl_1 fl_100)
  show ?thesis
    using assms(3) by (simp add: submit_quiz_found [OF assms(1)] score raw py_round_100)
qed

theorem all_correct_scores_full_witness:
  "find (\<lambda>q. Quiz_id q = 1) quizzes_db = Some (quizzes_db ! 0) \<and>
   distinct (map QuizQuestion_id (Quiz_questions (quizzes_db ! 0))) \<and>
   Quiz_questions (quizzes_db ! 0) \<noteq> [] \<and>
   mset (QuizSubmission_answers
          \<lparr>QuizSubmission_answers =
             [\<lparr>QuizAnswer_question_id = 3, QuizAnswer_answer = 2\<rparr>,
              \<lparr>QuizAnswer_question_id = 1, QuizAnswer_answer = 1\<rparr>,
              \<lparr>QuizAnswer_question_id = 2, QuizAnswer_answer = 1\<rparr>]\<rparr>) =
     mset (map correct_answer_to (Quiz_questions (quizzes_db ! 0))) \<and>
   (\<exists>r. submit_quiz quizzes_db 1
          \<lparr>QuizSubmission_answers =
             [\<lparr>QuizAnswer_question_id = 3, QuizAnswer_answer = 2\<rparr>,
              \<lparr>QuizAnswer_question_id = 1, QuizAnswer_answer = 1\<rparr>,
              \<lparr>QuizAnswer_question_id = 2, QuizAnswer_answer = 1\<rparr>]\<rparr> = Inr r \<and>
        QuizResult_score r = 3 \<and> QuizResult_total r = 3 \<and>
        QuizResult_percentage r = 100 \<and> QuizResult_passed r)"
proof -
  let ?sub = "\<lparr>QuizSubmission_answers =
             [\<lparr>QuizAnswer_question_id = 3, QuizAnswer_answer = 2\<rparr>,
              \<lparr>QuizAnswer_question_id = 1, QuizAnswer_answer = 1\<rparr>,
              \<lparr>QuizAnswer_question_id = 2, QuizAnswer_answer = 1\<rparr>]\<rparr>"
  have d: "distinct (map QuizQuestion_id (Quiz_questions (quizzes_db ! 0)))"
    by (simp add: quizzes_db_def)
  have ne: "Quiz_questions (quizzes_db ! 0) \<noteq> []"
    by (simp add: quizzes_db_def)
  have m: "mset (QuizSubmission_answers ?sub) =
           mset (map correct_answer_to (Quiz_questions (quizzes_db ! 0)))"
    by (simp add: quizzes_db_def correct_answer_to_def)
  show ?thesis
    using find_quiz_1 d ne m all_correct_scores_full [OF find_quiz_1 d ne m]
    by (simp add: length_quiz_1)
qed

subsection \<open>Keyword search\<close>







end
